theory Spec2Isabelle
  imports Main "HOL-Library.Sublist" "HOL-Library.AList"
begin

section \<open>JavaScript strings\<close>

text \<open>
  Strings are character lists. A field of a request body or of a stored document that
  is \<^verbatim>\<open>undefined\<close> (or \<^verbatim>\<open>null\<close>) is \<open>None\<close>. Calling a method on it raises a
  \<^verbatim>\<open>TypeError\<close>; a rejected call to the document store or to the bucket raises
  the store's own error.
\<close>

datatype error = TypeError | StoreError

text \<open>A value is truthy when it is a non-empty string (\<^verbatim>\<open>!x\<close> is its negation).\<close>

definition truthy :: "string option \<Rightarrow> bool" where
  "truthy x = (case x of None \<Rightarrow> False | Some s \<Rightarrow> s \<noteq> [])"

text \<open>\<^verbatim>\<open>s.toLowerCase()\<close>, on the ASCII letters.\<close>

definition lower_char :: "char \<Rightarrow> char" where
  "lower_char c =
     (let n = (of_char c :: nat) in if 65 \<le> n \<and> n \<le> 90 then char_of (n + 32) else c)"

definition toLowerCase :: "string \<Rightarrow> string" where
  "toLowerCase s = map lower_char s"

text \<open>\<^verbatim>\<open>s.includes(t)\<close>: \<open>t\<close> occurs in \<open>s\<close> as a contiguous run.\<close>

fun str_includes :: "string \<Rightarrow> string \<Rightarrow> bool" where
  "str_includes [] t = (t = [])"
| "str_includes (c # s) t = (prefix t (c # s) \<or> str_includes s t)"

text \<open>\<^verbatim>\<open>s.split(' ')\<close>: cut at every single space; never the empty list.\<close>

fun str_split :: "string \<Rightarrow> string list" where
  "str_split [] = [[]]"
| "str_split (c # s) =
     (if c = CHR '' '' then [] # str_split s
      else (case str_split s of [] \<Rightarrow> [[c]] | w # ws \<Rightarrow> (c # w) # ws))"

text \<open>\<^verbatim>\<open>s.trim()\<close>, on the ASCII white space.\<close>

definition is_space :: "char \<Rightarrow> bool" where
  "is_space c = ((of_char c :: nat) \<in> {9, 10, 11, 12, 13, 32})"

definition trim :: "string \<Rightarrow> string" where
  "trim s = rev (dropWhile is_space (rev (dropWhile is_space s)))"

section \<open>Documents\<close>

type_synonym doc_id = nat
type_synonym timestamp = nat

record item =
  title :: "string option"
  description :: "string option"
  category :: "string option"
  contact_info :: "string option"
  location :: "string option"
  image_url :: "string option"
  posted_by :: "string option"
  status :: "string option"
  date :: timestamp

record match =
  lost_item_id :: doc_id
  found_item_id :: doc_id
  confidence_score :: nat
  match_status :: string
  created_at :: timestamp
  updated_at :: "timestamp option"

record notification =
  user_id :: "string option"
  message :: string
  is_read :: bool
  notification_created_at :: timestamp
  match_id :: doc_id
  read_at :: "timestamp option"

section \<open>The scoring of one candidate (generateMatches, the head of the loop body)\<close>

text \<open>
  The title test calls \<^verbatim>\<open>toLowerCase\<close> on both titles with no guard, so an absent
  title raises; the two other tests are guarded by the truthiness of both fields.
\<close>

definition title_factor :: "string option \<Rightarrow> string option \<Rightarrow> error + nat" where
  "title_factor existingTitle newTitle =
     (case existingTitle of
        None \<Rightarrow> Inl TypeError
      | Some e \<Rightarrow>
          (case newTitle of
             None \<Rightarrow> Inl TypeError
           | Some t \<Rightarrow>
               Inr (if str_includes (toLowerCase e) (toLowerCase t)
                       \<or> str_includes (toLowerCase t) (toLowerCase e)
                    then 40 else 0)))"

definition description_factor :: "string option \<Rightarrow> string option \<Rightarrow> nat" where
  "description_factor existingDescription newDescription =
     (if truthy existingDescription \<and> truthy newDescription then
        (case (existingDescription, newDescription) of
           (Some e, Some d) \<Rightarrow>
             (let descWords = str_split (toLowerCase d);
                  existingDescWords = str_split (toLowerCase e);
                  commonWords = filter (\<lambda>word. word \<in> set existingDescWords) descWords
              in min (length commonWords * 5) 30)
         | _ \<Rightarrow> 0)
      else 0)"

definition location_factor :: "string option \<Rightarrow> string option \<Rightarrow> nat" where
  "location_factor existingLocation newLocation =
     (if truthy existingLocation \<and> truthy newLocation then
        (case (existingLocation, newLocation) of
           (Some e, Some l) \<Rightarrow>
             (if toLowerCase e = toLowerCase l then 20
              else if str_includes (toLowerCase e) (toLowerCase l)
                      \<or> str_includes (toLowerCase l) (toLowerCase e) then 10
              else 0)
         | _ \<Rightarrow> 0)
      else 0)"

definition score :: "item \<Rightarrow> item \<Rightarrow> error + nat" where
  "score existingItem newItemData =
     (case title_factor (title existingItem) (title newItemData) of
        Inl e \<Rightarrow> Inl e
      | Inr t \<Rightarrow>
          Inr (t + description_factor (description existingItem) (description newItemData)
                 + location_factor (location existingItem) (location newItemData)))"

section \<open>The document store and the bucket\<close>

text \<open>
  The document store and the storage bucket are external services. The world holds the
  three collections in use (documents in the order of their creation), the names of the
  objects in the bucket, the server's clock and a schedule of faults: every call to a
  service takes the next entry of the schedule and rejects when it is \<open>True\<close> (an
  exhausted schedule means that the remaining calls are served). The clock advances
  with every call; the \<^verbatim>\<open>serverTimestamp()\<close> sentinel of a write is resolved to the
  clock's value at that write. The store keeps a document as it is handed over, absent
  fields included.
\<close>

record world =
  items :: "(doc_id \<times> item) list"
  matches :: "(doc_id \<times> match) list"
  notifications :: "(doc_id \<times> notification) list"
  bucket :: "string list"
  clock :: timestamp
  faults :: "bool list"

definition rejects :: "world \<Rightarrow> bool" where
  "rejects w = (case faults w of [] \<Rightarrow> False | b # _ \<Rightarrow> b)"

definition after_call :: "world \<Rightarrow> world" where
  "after_call w = w\<lparr>clock := Suc (clock w), faults := tl (faults w)\<rparr>"

text \<open>The next \<open>n\<close> calls to the services are served.\<close>

definition accepts :: "nat \<Rightarrow> world \<Rightarrow> bool" where
  "accepts n w = (\<forall>b \<in> set (take n (faults w)). \<not> b)"

text \<open>
  \<^verbatim>\<open>createDocRef(collection)\<close> is \<^verbatim>\<open>db.collection(collection).doc()\<close>: a reference
  with an identifier no document of the collection has. No call to the store is made.
\<close>

definition fresh_id :: "(doc_id \<times> 'a) list \<Rightarrow> doc_id" where
  "fresh_id col = Suc (foldr max (map fst col) 0)"

text \<open>\<^verbatim>\<open>docRef.get()\<close>: the snapshot's \<^verbatim>\<open>exists\<close> and \<^verbatim>\<open>data()\<close> as an option.\<close>

definition get_item :: "doc_id \<Rightarrow> world \<Rightarrow> (error + item option) \<times> world" where
  "get_item i w =
     (if rejects w then (Inl StoreError, after_call w)
      else (Inr (map_of (items w) i), after_call w))"

definition get_match :: "doc_id \<Rightarrow> world \<Rightarrow> (error + match option) \<times> world" where
  "get_match i w =
     (if rejects w then (Inl StoreError, after_call w)
      else (Inr (map_of (matches w) i), after_call w))"

definition get_notification ::
  "doc_id \<Rightarrow> world \<Rightarrow> (error + notification option) \<times> world" where
  "get_notification i w =
     (if rejects w then (Inl StoreError, after_call w)
      else (Inr (map_of (notifications w) i), after_call w))"

text \<open>\<^verbatim>\<open>docRef.set(data)\<close>: creates the document, or replaces it.\<close>

definition set_item :: "doc_id \<Rightarrow> item \<Rightarrow> world \<Rightarrow> (error + unit) \<times> world" where
  "set_item i d w =
     (if rejects w then (Inl StoreError, after_call w)
      else (Inr (), (after_call w)\<lparr>items := AList.update i d (items w)\<rparr>))"

definition set_match :: "doc_id \<Rightarrow> match \<Rightarrow> world \<Rightarrow> (error + unit) \<times> world" where
  "set_match i d w =
     (if rejects w then (Inl StoreError, after_call w)
      else (Inr (), (after_call w)\<lparr>matches := AList.update i d (matches w)\<rparr>))"

definition set_notification ::
  "doc_id \<Rightarrow> notification \<Rightarrow> world \<Rightarrow> (error + unit) \<times> world" where
  "set_notification i d w =
     (if rejects w then (Inl StoreError, after_call w)
      else (Inr (), (after_call w)\<lparr>notifications := AList.update i d (notifications w)\<rparr>))"

text \<open>
  \<^verbatim>\<open>docRef.update(fields)\<close>: overwrites the given fields of an existing document and
  fails when there is no such document. The three updates of the routes:
  \<^verbatim>\<open>{ status: 'Returned' }\<close> on an item, \<^verbatim>\<open>{ status, updated_at }\<close> on a match and
  \<^verbatim>\<open>{ is_read: true, read_at }\<close> on a notification.
\<close>

definition update_item_status :: "doc_id \<Rightarrow> string \<Rightarrow> world \<Rightarrow> (error + unit) \<times> world" where
  "update_item_status i s w =
     (if rejects w then (Inl StoreError, after_call w)
      else (case map_of (items w) i of
              None \<Rightarrow> (Inl StoreError, after_call w)
            | Some d \<Rightarrow>
                (Inr (), (after_call w)\<lparr>items :=
                   AList.update i (d\<lparr>status := Some s\<rparr>) (items w)\<rparr>)))"

definition update_match_status :: "doc_id \<Rightarrow> string \<Rightarrow> world \<Rightarrow> (error + unit) \<times> world" where
  "update_match_status i s w =
     (if rejects w then (Inl StoreError, after_call w)
      else (case map_of (matches w) i of
              None \<Rightarrow> (Inl StoreError, after_call w)
            | Some d \<Rightarrow>
                (Inr (), (after_call w)\<lparr>matches :=
                   AList.update i (d\<lparr>match_status := s, updated_at := Some (clock w)\<rparr>)
                     (matches w)\<rparr>)))"

definition update_notification_read :: "doc_id \<Rightarrow> world \<Rightarrow> (error + unit) \<times> world" where
  "update_notification_read i w =
     (if rejects w then (Inl StoreError, after_call w)
      else (case map_of (notifications w) i of
              None \<Rightarrow> (Inl StoreError, after_call w)
            | Some d \<Rightarrow>
                (Inr (), (after_call w)\<lparr>notifications :=
                   AList.update i (d\<lparr>is_read := True, read_at := Some (clock w)\<rparr>)
                     (notifications w)\<rparr>)))"

text \<open>
  The query of generateMatches:
  \<^verbatim>\<open>db.collection('items').where('category', '==', category).where('status', '==', s).get()\<close>.
  An equality filter never selects a document that lacks the field.
\<close>

definition query_items ::
  "string option \<Rightarrow> string \<Rightarrow> world \<Rightarrow> (error + (doc_id \<times> item) list) \<times> world" where
  "query_items cat s w =
     (if rejects w then (Inl StoreError, after_call w)
      else (Inr (filter (\<lambda>doc. category (snd doc) \<noteq> None \<and> category (snd doc) = cat
                                 \<and> status (snd doc) = Some s) (items w)),
            after_call w))"

section \<open>uploadImageToStorage\<close>

text \<open>
  The object's name starts with \<^verbatim>\<open>Date.now()\<close> and a random number, which the
  runtime draws; here they come with the file, as \<open>stamp\<close>. Writing the stream and
  making the object public are two calls to the bucket; either may reject.
\<close>

record upload_file =
  originalname :: string
  mimetype :: string
  buffer :: string
  stamp :: string

definition bucket_name :: string where
  "bucket_name = ''seekr-board-4b3c7.firebasestorage.app''"

definition uploadImageToStorage :: "upload_file \<Rightarrow> world \<Rightarrow> (error + string) \<times> world" where
  "uploadImageToStorage file w =
     (let fileName = ''items/'' @ stamp file @ ''_'' @ originalname file in
      if rejects w then (Inl StoreError, after_call w)
      else (let w1 = (after_call w)\<lparr>bucket := bucket w @ [fileName]\<rparr> in
            if rejects w1 then (Inl StoreError, after_call w1)
            else (Inr (''https://storage.googleapis.com/'' @ bucket_name @ ''/'' @ fileName),
                  after_call w1)))"

section \<open>generateMatches\<close>

record match_result =
  res_match_id :: doc_id
  res_confidence_score :: nat
  matched_item_id :: doc_id
  matched_item_title :: "string option"
  matched_item_description :: "string option"

definition notification_message :: "string \<Rightarrow> string option \<Rightarrow> string" where
  "notification_message st t =
     ''Potential match found for your '' @ toLowerCase st @ '' item: '' @ [CHR 0x22]
       @ (case t of None \<Rightarrow> ''undefined'' | Some s \<Rightarrow> s) @ [CHR 0x22]"

text \<open>
  One turn of the loop over \<^verbatim>\<open>snapshot.docs\<close>: the score of the candidate and, from
  30 on, the match, its notification and the entry pushed on \<^verbatim>\<open>matches\<close>. An error
  leaves the turn at once, with the writes made so far in the store.
\<close>

definition scan_doc ::
  "doc_id \<Rightarrow> item \<Rightarrow> doc_id \<times> item \<Rightarrow> match_result list \<Rightarrow> world
     \<Rightarrow> (error + match_result list) \<times> world" where
  "scan_doc newItemId newItemData doc found w =
     (let existingItem = snd doc in
      case score existingItem newItemData of
        Inl e \<Rightarrow> (Inl e, w)
      | Inr confidenceScore \<Rightarrow>
          if confidenceScore \<ge> 30 then
            (let matchData = \<lparr>
                   lost_item_id =
                     (if status newItemData = Some ''Lost'' then newItemId else fst doc),
                   found_item_id =
                     (if status newItemData = Some ''Found'' then newItemId else fst doc),
                   confidence_score = confidenceScore,
                   match_status = ''Pending'',
                   created_at = clock w,
                   updated_at = None\<rparr>;
                 matchRef = fresh_id (matches w)
             in case set_match matchRef matchData w of
                  (Inl e, w1) \<Rightarrow> (Inl e, w1)
                | (Inr _, w1) \<Rightarrow>
                    (case status newItemData of
                       None \<Rightarrow> (Inl TypeError, w1)
                     | Some st \<Rightarrow>
                         (let notificationData = \<lparr>
                                user_id = posted_by existingItem,
                                message = notification_message st (title newItemData),
                                is_read = False,
                                notification_created_at = clock w1,
                                match_id = matchRef,
                                read_at = None\<rparr>;
                              notificationRef = fresh_id (notifications w1)
                          in case set_notification notificationRef notificationData w1 of
                               (Inl e, w2) \<Rightarrow> (Inl e, w2)
                             | (Inr _, w2) \<Rightarrow>
                                 (Inr (found @ [\<lparr>
                                    res_match_id = matchRef,
                                    res_confidence_score = confidenceScore,
                                    matched_item_id = fst doc,
                                    matched_item_title = title existingItem,
                                    matched_item_description = description existingItem\<rparr>]),
                                  w2))))
          else (Inr found, w))"

fun scan ::
  "doc_id \<Rightarrow> item \<Rightarrow> (doc_id \<times> item) list \<Rightarrow> match_result list \<Rightarrow> world
     \<Rightarrow> (error + match_result list) \<times> world" where
  "scan newItemId newItemData [] found w = (Inr found, w)"
| "scan newItemId newItemData (doc # docs) found w =
     (case scan_doc newItemId newItemData doc found w of
        (Inl e, w1) \<Rightarrow> (Inl e, w1)
      | (Inr found1, w1) \<Rightarrow> scan newItemId newItemData docs found1 w1)"

text \<open>The body of the \<^verbatim>\<open>try\<close> block.\<close>

definition generateMatches_try ::
  "doc_id \<Rightarrow> item \<Rightarrow> world \<Rightarrow> (error + match_result list) \<times> world" where
  "generateMatches_try newItemId newItemData w =
     (case query_items (category newItemData)
             (if status newItemData = Some ''Lost'' then ''Found'' else ''Lost'') w of
        (Inl e, w1) \<Rightarrow> (Inl e, w1)
      | (Inr docs, w1) \<Rightarrow> scan newItemId newItemData docs [] w1)"

text \<open>The \<^verbatim>\<open>catch\<close> logs the error and returns the empty list.\<close>

definition generateMatches :: "doc_id \<Rightarrow> item \<Rightarrow> world \<Rightarrow> match_result list \<times> world" where
  "generateMatches newItemId newItemData w =
     (case generateMatches_try newItemId newItemData w of
        (Inl e, w1) \<Rightarrow> ([], w1)
      | (Inr found, w1) \<Rightarrow> (found, w1))"

section \<open>The routes\<close>

datatype 'a response = Success nat string 'a | Failure nat string

record request_body =
  req_title :: "string option"
  req_description :: "string option"
  req_category :: "string option"
  req_contact_info :: "string option"
  req_location :: "string option"
  req_status :: "string option"

text \<open>\<^verbatim>\<open>x?.trim() || ''\<close>\<close>

definition trim_or_empty :: "string option \<Rightarrow> string" where
  "trim_or_empty x = (case x of None \<Rightarrow> [] | Some s \<Rightarrow> trim s)"

subsection \<open>POST /items\<close>

text \<open>
  \<open>uid\<close> is \<^verbatim>\<open>req.user.uid\<close>, set by the authentication middleware; \<open>file\<close> is
  \<^verbatim>\<open>req.file\<close>. The validation reads the three fields as they arrive: the test
  \<^verbatim>\<open>!title || !category || !status\<close> passes exactly when each is a non-empty string.
\<close>

definition createItem ::
  "request_body \<Rightarrow> upload_file option \<Rightarrow> string \<Rightarrow> world
     \<Rightarrow> (doc_id \<times> item \<times> match_result list) response \<times> world" where
  "createItem body file uid w =
     (case (req_title body, req_category body, req_status body) of
        (Some t, Some c, Some s) \<Rightarrow>
          if t = [] \<or> c = [] \<or> s = [] then
            (Failure 400 ''Title, category, and status are required fields'', w)
          else if s \<notin> set [''Lost'', ''Found''] then
            (Failure 400 (''Status must be either '' @ [CHR 0x22] @ ''Lost'' @ [CHR 0x22]
                            @ '' or '' @ [CHR 0x22] @ ''Found'' @ [CHR 0x22]), w)
          else
            (case (case file of
                     None \<Rightarrow> (Inr [], w)
                   | Some f \<Rightarrow> uploadImageToStorage f w) of
               (Inl e, w1) \<Rightarrow> (Failure 400 ''Failed to upload image'', w1)
             | (Inr url, w1) \<Rightarrow>
                 (let itemData = \<lparr>
                        title = Some (trim t),
                        description = Some (trim_or_empty (req_description body)),
                        category = Some (trim c),
                        contact_info = Some (trim_or_empty (req_contact_info body)),
                        location = Some (trim_or_empty (req_location body)),
                        image_url = Some url,
                        posted_by = Some uid,
                        status = Some s,
                        date = clock w1\<rparr>;
                      itemRef = fresh_id (items w1)
                  in case set_item itemRef itemData w1 of
                       (Inl e, w2) \<Rightarrow> (Failure 500 ''Failed to create item'', w2)
                     | (Inr _, w2) \<Rightarrow>
                         (case generateMatches itemRef itemData w2 of
                            (found, w3) \<Rightarrow>
                              (Success 201 ''Item created successfully''
                                 (itemRef, itemData, found), w3))))
      | _ \<Rightarrow> (Failure 400 ''Title, category, and status are required fields'', w))"

subsection \<open>PUT /notifications/:id/read\<close>

definition markRead :: "doc_id \<Rightarrow> string \<Rightarrow> world \<Rightarrow> unit response \<times> world" where
  "markRead i uid w =
     (case get_notification i w of
        (Inl e, w1) \<Rightarrow> (Failure 500 ''Failed to update notification'', w1)
      | (Inr None, w1) \<Rightarrow> (Failure 404 ''Notification not found'', w1)
      | (Inr (Some notificationData), w1) \<Rightarrow>
          if user_id notificationData \<noteq> Some uid then
            (Failure 403 ''Unauthorized to update this notification'', w1)
          else
            (case update_notification_read i w1 of
               (Inl e, w2) \<Rightarrow> (Failure 500 ''Failed to update notification'', w2)
             | (Inr _, w2) \<Rightarrow> (Success 200 ''Notification marked as read'' (), w2)))"

subsection \<open>PUT /matches/:id/status\<close>

text \<open>
  \<^verbatim>\<open>doc.data()?.posted_by\<close> is \<^verbatim>\<open>undefined\<close> for a missing document. Both reads of
  a \<^verbatim>\<open>Promise.all\<close> are issued, and so are both updates; the \<^verbatim>\<open>await\<close> raises when
  either has failed.
\<close>

definition posted_by_of :: "item option \<Rightarrow> string option" where
  "posted_by_of d = (case d of None \<Rightarrow> None | Some x \<Rightarrow> posted_by x)"

definition updateMatchStatus ::
  "doc_id \<Rightarrow> string option \<Rightarrow> string \<Rightarrow> world \<Rightarrow> unit response \<times> world" where
  "updateMatchStatus i newStatus uid w =
     (case newStatus of
        None \<Rightarrow> (Failure 400 ''Status must be Pending, Confirmed, or Rejected'', w)
      | Some s \<Rightarrow>
          if s \<notin> set [''Pending'', ''Confirmed'', ''Rejected''] then
            (Failure 400 ''Status must be Pending, Confirmed, or Rejected'', w)
          else
            (case get_match i w of
               (Inl e, w1) \<Rightarrow> (Failure 500 ''Failed to update match status'', w1)
             | (Inr None, w1) \<Rightarrow> (Failure 404 ''Match not found'', w1)
             | (Inr (Some matchData), w1) \<Rightarrow>
                 (case get_item (lost_item_id matchData) w1 of
                    (lostItemDoc, w2) \<Rightarrow>
                      (case get_item (found_item_id matchData) w2 of
                         (foundItemDoc, w3) \<Rightarrow>
                           (case (lostItemDoc, foundItemDoc) of
                              (Inr lostItem, Inr foundItem) \<Rightarrow>
                                if \<not> (posted_by_of lostItem = Some uid
                                        \<or> posted_by_of foundItem = Some uid) then
                                  (Failure 403 ''Unauthorized to update this match'', w3)
                                else
                                  (case update_match_status i s w3 of
                                     (Inl e, w4) \<Rightarrow>
                                       (Failure 500 ''Failed to update match status'', w4)
                                   | (Inr _, w4) \<Rightarrow>
                                       if s = ''Confirmed'' then
                                         (case update_item_status (lost_item_id matchData)
                                                 ''Returned'' w4 of
                                            (r1, w5) \<Rightarrow>
                                              (case update_item_status
                                                      (found_item_id matchData)
                                                      ''Returned'' w5 of
                                                 (r2, w6) \<Rightarrow>
                                                   (case (r1, r2) of
                                                      (Inr _, Inr _) \<Rightarrow>
                                                        (Success 200
                                                           ''Match status updated successfully''
                                                           (), w6)
                                                    | _ \<Rightarrow>
                                                        (Failure 500
                                                           ''Failed to update match status'',
                                                         w6))))
                                       else
                                         (Success 200 ''Match status updated successfully''
                                            (), w4))
                            | _ \<Rightarrow> (Failure 500 ''Failed to update match status'', w3))))))"

section \<open>Notions used in the statements\<close>

text \<open>The words of a description, as the scoring cuts them, are pairwise different.\<close>

definition distinct_words :: "string option \<Rightarrow> bool" where
  "distinct_words d =
     (case d of None \<Rightarrow> True | Some s \<Rightarrow> distinct (str_split (toLowerCase s)))"

text \<open>The HTTP status of a response.\<close>

fun response_code :: "'a response \<Rightarrow> nat" where
  "response_code (Success c m x) = c"
| "response_code (Failure c m) = c"

text \<open>Items, request bodies, an uploaded file and worlds for the examples.\<close>

definition item_of :: "string \<Rightarrow> string \<Rightarrow> string \<Rightarrow> string \<Rightarrow> string \<Rightarrow> item" where
  "item_of t d l s u = \<lparr>title = Some t, description = Some d, category = Some ''Bags'',
     contact_info = Some [], location = Some l, image_url = Some [],
     posted_by = Some u, status = Some s, date = 0\<rparr>"

definition world_of :: "(doc_id \<times> item) list \<Rightarrow> bool list \<Rightarrow> world" where
  "world_of its fs = \<lparr>items = its, matches = [], notifications = [], bucket = [],
     clock = 0, faults = fs\<rparr>"

definition body_of :: "string \<Rightarrow> string \<Rightarrow> string \<Rightarrow> request_body" where
  "body_of t c s = \<lparr>req_title = Some t, req_description = None, req_category = Some c,
     req_contact_info = None, req_location = None, req_status = Some s\<rparr>"

definition photo :: upload_file where
  "photo = \<lparr>originalname = ''bag.png'', mimetype = ''image/png'', buffer = ''...'',
     stamp = ''1700000000000_42''\<rparr>"

definition match_of :: "string \<Rightarrow> match" where
  "match_of s = \<lparr>lost_item_id = 1, found_item_id = 2, confidence_score = 60,
     match_status = s, created_at = 4, updated_at = None\<rparr>"

definition notification_of :: "string \<Rightarrow> notification" where
  "notification_of u = \<lparr>user_id = Some u, message = ''Potential match found'',
     is_read = False, notification_created_at = 5, match_id = 1, read_at = None\<rparr>"

definition match_world :: "(doc_id \<times> item) list \<Rightarrow> string \<Rightarrow> bool list \<Rightarrow> world" where
  "match_world its s fs = \<lparr>items = its, matches = [(1, match_of s)],
     notifications = [(1, notification_of ''alice'')], bucket = [], clock = 6, faults = fs\<rparr>"

definition lost_bag :: item where
  "lost_bag = item_of ''Blue Backpack'' [] ''Library'' ''Lost'' ''alice''"

definition found_bag :: item where
  "found_bag = item_of ''backpack'' [] ''Library'' ''Found'' ''bob''"

text \<open>
  The match \<open>i\<close> is Confirmed and the items \<open>l\<close> and \<open>f\<close> are Returned.
\<close>

definition settled :: "doc_id \<Rightarrow> doc_id \<Rightarrow> doc_id \<Rightarrow> world \<Rightarrow> bool" where
  "settled i l f w =
     (map_option match_status (map_of (matches w) i) = Some ''Confirmed'' \<and>
      map_option status (map_of (items w) l) = Some (Some ''Returned'') \<and>
      map_option status (map_of (items w) f) = Some (Some ''Returned''))"

text \<open>
  The Match of the entry \<open>r\<close> returned by a scan and a Notification that refers to it
  are in the store \<open>w'\<close>, and neither was in the store \<open>w\<close>.
\<close>

definition persisted :: "world \<Rightarrow> world \<Rightarrow> match_result \<Rightarrow> bool" where
  "persisted w w' r =
     (map_of (matches w) (res_match_id r) = None \<and>
      (case map_of (matches w') (res_match_id r) of
         None \<Rightarrow> False
       | Some m \<Rightarrow> match_status m = ''Pending''
                  \<and> confidence_score m = res_confidence_score r) \<and>
      list_ex (\<lambda>n. match_id (snd n) = res_match_id r
                    \<and> map_of (notifications w) (fst n) = None) (notifications w'))"

definition other_bag :: item where
  "other_bag = item_of ''Backpack'' [] [] ''Found'' ''carol''"

definition first_result :: match_result where
  "first_result = \<lparr>res_match_id = 1, res_confidence_score = 60, matched_item_id = 1,
     matched_item_title = Some ''backpack'', matched_item_description = Some []\<rparr>"

text \<open>
  The candidates of a scan for which a Match is due: those whose score is computed and
  is at least 30.
\<close>

definition hits :: "item \<Rightarrow> (doc_id \<times> item) list \<Rightarrow> (doc_id \<times> item) list" where
  "hits newItemData docs =
     filter (\<lambda>doc. case score (snd doc) newItemData of Inl e \<Rightarrow> False | Inr s \<Rightarrow> 30 \<le> s) docs"

text \<open>
  The stored Match \<open>p\<close> is the one of the candidate \<open>doc\<close>: it pairs the new item with
  the candidate on the sides the new item's status \<open>st\<close> assigns, carries the
  candidate's score and is Pending. The stored Notification \<open>q\<close> is the one of that
  Match: it refers to the Match, is addressed to the candidate's poster and is unread.
\<close>

definition match_for ::
  "string \<Rightarrow> doc_id \<Rightarrow> item \<Rightarrow> doc_id \<times> item \<Rightarrow> doc_id \<times> match \<Rightarrow> bool" where
  "match_for st newItemId newItemData doc p =
     (lost_item_id (snd p) = (if st = ''Lost'' then newItemId else fst doc) \<and>
      found_item_id (snd p) = (if st = ''Found'' then newItemId else fst doc) \<and>
      score (snd doc) newItemData = Inr (confidence_score (snd p)) \<and>
      match_status (snd p) = ''Pending'')"

definition notification_for ::
  "doc_id \<times> item \<Rightarrow> doc_id \<times> match \<Rightarrow> doc_id \<times> notification \<Rightarrow> bool" where
  "notification_for doc p q =
     (match_id (snd q) = fst p \<and> user_id (snd q) = posted_by (snd doc)
      \<and> \<not> is_read (snd q))"

definition keys_item :: item where
  "keys_item = item_of ''Keys'' [] ''Library'' ''Found'' ''dave''"

section \<open>Strings\<close>

lemma str_includes_sublist: "str_includes s t = sublist t s"
  by (induction s) (auto simp: sublist_Cons_right)

lemma str_includes_empty: "str_includes s []"
  by (cases s) simp_all

lemma str_split_nonempty: "str_split s \<noteq> []"
  by (induction s) (auto split: list.splits)

section \<open>The three factors of the score\<close>

lemma title_factor_sym: "title_factor a b = title_factor b a"
  by (auto simp: title_factor_def split: option.splits)

lemma location_factor_sym: "location_factor a b = location_factor b a"
  by (auto simp: location_factor_def truthy_def split: option.splits)

lemma common_words_sym:
  assumes "distinct xs" "distinct ys"
  shows "length (filter (\<lambda>w. w \<in> set ys) xs) = length (filter (\<lambda>w. w \<in> set xs) ys)"
proof -
  have "length (filter (\<lambda>w. w \<in> set ys) xs) = card (set ys \<inter> set xs)"
    using assms(1) by (simp add: distinct_length_filter)
  moreover have "length (filter (\<lambda>w. w \<in> set xs) ys) = card (set xs \<inter> set ys)"
    using assms(2) by (simp add: distinct_length_filter)
  ultimately show ?thesis by (simp add: Int_commute)
qed

lemma description_factor_sym:
  "distinct_words a \<Longrightarrow> distinct_words b \<Longrightarrow> description_factor a b = description_factor b a"
  by (auto simp: description_factor_def distinct_words_def truthy_def Let_def common_words_sym
           split: option.splits)

text \<open>The guarded factors add nothing when a side is absent or empty.\<close>

lemma description_factor_missing:
  "\<not> truthy a \<or> \<not> truthy b \<Longrightarrow> description_factor a b = 0"
  by (auto simp: description_factor_def)

lemma location_factor_missing:
  "\<not> truthy a \<or> \<not> truthy b \<Longrightarrow> location_factor a b = 0"
  by (auto simp: location_factor_def)

text \<open>The title factor has no guard: an absent title raises, an empty one scores 40.\<close>

lemma title_factor_absent:
  "title_factor None t = Inl TypeError" "title_factor e None = Inl TypeError"
  by (auto simp: title_factor_def split: option.splits)

lemma title_factor_empty:
  "title_factor (Some e) (Some []) = Inr 40" "title_factor (Some []) (Some t) = Inr 40"
  by (auto simp: title_factor_def toLowerCase_def str_includes_empty)

section \<open>The store\<close>

lemma accepts_0: "accepts 0 w"
  by (simp add: accepts_def)

lemma accepts_Suc: "accepts (Suc n) w = (\<not> rejects w \<and> accepts n (after_call w))"
  by (cases "faults w") (auto simp: accepts_def rejects_def after_call_def)

lemma fresh_id_bound: "k \<in> fst ` set col \<Longrightarrow> k < fresh_id col"
  by (induction col) (force simp: fresh_id_def less_Suc_eq_le max_def)+

lemma fresh_id_notin: "fresh_id col \<notin> fst ` set col"
  using fresh_id_bound [of "fresh_id col" col] by auto

lemma map_of_fresh_id: "map_of col (fresh_id col) = None"
  using fresh_id_notin [of col] by (simp add: map_of_eq_None_iff)

lemma update_new: "k \<notin> fst ` set al \<Longrightarrow> AList.update k v al = al @ [(k, v)]"
  by (induction al) auto

lemma update_fresh_id: "AList.update (fresh_id al) v al = al @ [(fresh_id al, v)]"
  by (simp add: update_new fresh_id_notin)

lemma accepts_4: "accepts 4 w = (\<not> rejects w \<and> \<not> rejects (after_call w)
    \<and> \<not> rejects (after_call (after_call w))
    \<and> \<not> rejects (after_call (after_call (after_call w))))"
  by (simp add: eval_nat_numeral accepts_Suc accepts_0)

lemma rejects_matches_update [simp]: "rejects (w\<lparr>matches := ms\<rparr>) = rejects w"
  by (simp add: rejects_def)

lemma rejects_items_update [simp]: "rejects (w\<lparr>items := ms\<rparr>) = rejects w"
  by (simp add: rejects_def)

lemma rejects_notifications_update [simp]: "rejects (w\<lparr>notifications := ms\<rparr>) = rejects w"
  by (simp add: rejects_def)

lemma after_call_fields [simp]:
  "items (after_call w) = items w" "matches (after_call w) = matches w"
  "notifications (after_call w) = notifications w" "bucket (after_call w) = bucket w"
  "clock (after_call w) = Suc (clock w)" "faults (after_call w) = tl (faults w)"
  by (simp_all add: after_call_def)

lemma after_call_matches_update [simp]:
  "after_call (w\<lparr>matches := ms\<rparr>) = (after_call w)\<lparr>matches := ms\<rparr>"
  "after_call (w\<lparr>items := is\<rparr>) = (after_call w)\<lparr>items := is\<rparr>"
  "after_call (w\<lparr>notifications := ns\<rparr>) = (after_call w)\<lparr>notifications := ns\<rparr>"
  by (simp_all add: after_call_def)

lemma update_item_status_matches [simp]:
  "matches (snd (update_item_status i s w)) = matches w"
  by (simp add: update_item_status_def split: option.splits)

lemma update_item_status_matchesD:
  "update_item_status i s w = (r, w') \<Longrightarrow> matches w' = matches w"
  by (auto simp: update_item_status_def split: option.splits if_splits)

lemmas store_defs = get_match_def get_item_def update_match_status_def

lemma accepts_6: "accepts 6 w = (accepts 4 w
    \<and> \<not> rejects (after_call (after_call (after_call (after_call w))))
    \<and> \<not> rejects (after_call (after_call (after_call (after_call (after_call w))))))"
  by (simp add: eval_nat_numeral accepts_Suc accepts_0)

lemma confirm_success:
  assumes "map_of (matches w) i = Some m"
      and "updateMatchStatus i (Some ''Confirmed'') uid w = (Success 200 msg x, w1)"
  shows "\<exists>dl df. map_of (items w) (lost_item_id m) = Some dl
           \<and> map_of (items w) (found_item_id m) = Some df
           \<and> (posted_by dl = Some uid \<or> posted_by df = Some uid)
           \<and> map_of (matches w1) i
                = Some (m\<lparr>match_status := ''Confirmed'', updated_at := Some (clock w + 3)\<rparr>)
           \<and> map_of (items w1) (lost_item_id m) = Some (dl\<lparr>status := Some ''Returned''\<rparr>)
           \<and> map_of (items w1) (found_item_id m) = Some (df\<lparr>status := Some ''Returned''\<rparr>)"
  using assms
  by (auto simp: updateMatchStatus_def store_defs update_item_status_def AList.update_conv'
        posted_by_of_def
      split: prod.splits sum.splits if_splits option.splits)

lemma confirm_again_state:
  assumes "map_of (matches w) i = Some m" "match_status m = ''Confirmed''"
      and "map_of (items w) (lost_item_id m) = Some dl" "status dl = Some ''Returned''"
      and "map_of (items w) (found_item_id m) = Some df" "status df = Some ''Returned''"
  shows "settled i (lost_item_id m) (found_item_id m)
           (snd (updateMatchStatus i (Some ''Confirmed'') uid w))"
  using assms
  by (auto simp: settled_def updateMatchStatus_def store_defs update_item_status_def
        AList.update_conv' posted_by_of_def
      split: prod.splits sum.splits if_splits option.splits)

lemma confirm_again_success:
  assumes "map_of (matches w) i = Some m"
      and "map_of (items w) (lost_item_id m) = Some dl"
      and "map_of (items w) (found_item_id m) = Some df"
      and "posted_by dl = Some uid \<or> posted_by df = Some uid"
      and "accepts 6 w"
  shows "fst (updateMatchStatus i (Some ''Confirmed'') uid w)
           = Success 200 ''Match status updated successfully'' ()"
  using assms
  by (auto simp: updateMatchStatus_def store_defs update_item_status_def accepts_6 accepts_4
        AList.update_conv' posted_by_of_def
      split: prod.splits sum.splits if_splits option.splits)

section \<open>The scan of generateMatches\<close>

lemma map_of_prefix_Some:
  "prefix xs ys \<Longrightarrow> map_of xs k = Some v \<Longrightarrow> map_of ys k = Some v"
  by (auto simp: prefix_def)

lemma map_of_prefix_None:
  "prefix xs ys \<Longrightarrow> k \<notin> fst ` set ys \<Longrightarrow> map_of xs k = None"
  by (auto simp: prefix_def map_of_eq_None_iff)

lemma persisted_mono:
  assumes "persisted w w1 r" "prefix (matches w1) (matches w2)"
      and "prefix (notifications w1) (notifications w2)"
  shows "persisted w w2 r"
proof -
  from assms(1) obtain m where m: "map_of (matches w1) (res_match_id r) = Some m"
    by (auto simp: persisted_def split: option.splits)
  from map_of_prefix_Some [OF assms(2) m] have "map_of (matches w2) (res_match_id r) = Some m" .
  moreover from assms(3) obtain zs where "notifications w2 = notifications w1 @ zs"
    by (auto simp: prefix_def)
  ultimately show ?thesis
    using assms(1) m by (auto simp: persisted_def)
qed

lemma scan_doc_grows:
  assumes "scan_doc nid nd doc found w = (r, w')"
  shows "items w' = items w \<and> prefix (matches w) (matches w')
         \<and> prefix (notifications w) (notifications w')"
  using assms
  by (auto simp: scan_doc_def Let_def set_match_def set_notification_def update_fresh_id
      split: sum.splits if_splits option.splits)

lemma scan_grows:
  "scan nid nd docs found w = (r, w') \<Longrightarrow>
     items w' = items w \<and> prefix (matches w) (matches w')
     \<and> prefix (notifications w) (notifications w')"
proof (induction docs arbitrary: found w)
  case Nil
  then show ?case by simp
next
  case (Cons doc docs)
  obtain r1 w1 where step: "scan_doc nid nd doc found w = (r1, w1)"
    by (cases "scan_doc nid nd doc found w")
  note g = scan_doc_grows [OF step]
  show ?case
  proof (cases r1)
    case (Inl e)
    with Cons.prems step g show ?thesis by simp
  next
    case (Inr found1)
    with Cons.prems step have "scan nid nd docs found1 w1 = (r, w')" by simp
    from Cons.IH [OF this] g show ?thesis
      by (auto intro: prefix_order.trans)
  qed
qed

lemma generateMatches_items: "items (snd (generateMatches nid nd w)) = items w"
proof -
  obtain q w0 where q: "query_items (category nd)
      (if status nd = Some ''Lost'' then ''Found'' else ''Lost'') w = (q, w0)"
    by (cases "query_items (category nd)
      (if status nd = Some ''Lost'' then ''Found'' else ''Lost'') w")
  then have w0: "items w0 = items w"
    by (auto simp: query_items_def split: if_splits)
  show ?thesis
  proof (cases q)
    case (Inl e)
    with q w0 show ?thesis by (simp add: generateMatches_def generateMatches_try_def)
  next
    case (Inr docs)
    obtain r w1 where s: "scan nid nd docs [] w0 = (r, w1)"
      by (cases "scan nid nd docs [] w0")
    from scan_grows [OF s] w0 have "items w1 = items w" by simp
    with q Inr s show ?thesis
      by (cases r) (simp_all add: generateMatches_def generateMatches_try_def)
  qed
qed

lemma scan_doc_Inr:
  assumes "scan_doc nid nd doc found w = (Inr found', w')"
  shows "(found' = found \<and> w' = w) \<or>
         (\<exists>m n r. found' = found @ [r]
            \<and> res_match_id r = fresh_id (matches w)
            \<and> matches w' = matches w @ [(fresh_id (matches w), m)]
            \<and> match_status m = ''Pending''
            \<and> confidence_score m = res_confidence_score r
            \<and> notifications w' = notifications w @ [(fresh_id (notifications w), n)]
            \<and> match_id n = fresh_id (matches w))"
  using assms
  by (auto simp: scan_doc_def Let_def set_match_def set_notification_def update_fresh_id
      split: sum.splits if_splits option.splits)

lemma scan_doc_persisted:
  assumes "scan_doc nid nd doc found w1 = (Inr found', w2)"
      and "prefix (matches w) (matches w1)" "prefix (notifications w) (notifications w1)"
      and "\<forall>r \<in> set found. persisted w w1 r"
  shows "\<forall>r \<in> set found'. persisted w w2 r"
proof -
  note g = scan_doc_grows [OF assms(1)]
  have old: "persisted w w2 r" if "r \<in> set found" for r
    using persisted_mono [of w w1 r w2] assms(4) that g by simp
  have m0: "map_of (matches w) (fresh_id (matches w1)) = None"
    using map_of_prefix_None [OF assms(2) fresh_id_notin] .
  have n0: "map_of (notifications w) (fresh_id (notifications w1)) = None"
    using map_of_prefix_None [OF assms(3) fresh_id_notin] .
  from scan_doc_Inr [OF assms(1)] show ?thesis
  proof
    assume "found' = found \<and> w2 = w1"
    with assms(4) show ?thesis by simp
  next
    assume "\<exists>m n r. found' = found @ [r]
            \<and> res_match_id r = fresh_id (matches w1)
            \<and> matches w2 = matches w1 @ [(fresh_id (matches w1), m)]
            \<and> match_status m = ''Pending''
            \<and> confidence_score m = res_confidence_score r
            \<and> notifications w2 = notifications w1 @ [(fresh_id (notifications w1), n)]
            \<and> match_id n = fresh_id (matches w1)"
    then obtain m n r where new: "found' = found @ [r]"
        "res_match_id r = fresh_id (matches w1)"
        "matches w2 = matches w1 @ [(fresh_id (matches w1), m)]"
        "match_status m = ''Pending''" "confidence_score m = res_confidence_score r"
        "notifications w2 = notifications w1 @ [(fresh_id (notifications w1), n)]"
        "match_id n = fresh_id (matches w1)"
      by blast
    have "persisted w w2 r"
      unfolding persisted_def new(2,3,6)
      by (simp add: map_add_def map_of_fresh_id m0 n0 new(4,5,7))
    with old new(1) show ?thesis by auto
  qed
qed

lemma scan_persisted:
  "scan nid nd docs found w1 = (Inr found', w2) \<Longrightarrow>
   prefix (matches w) (matches w1) \<Longrightarrow> prefix (notifications w) (notifications w1) \<Longrightarrow>
   \<forall>r \<in> set found. persisted w w1 r \<Longrightarrow>
   \<forall>r \<in> set found'. persisted w w2 r"
proof (induction docs arbitrary: found w1)
  case Nil
  then show ?case by simp
next
  case (Cons doc docs)
  obtain r1 wa where step: "scan_doc nid nd doc found w1 = (r1, wa)"
    by (cases "scan_doc nid nd doc found w1")
  with Cons.prems(1) obtain f1 where r1: "r1 = Inr f1"
    by (cases r1) auto
  note g = scan_doc_grows [OF step]
  from Cons.prems(1) step r1 have rest: "scan nid nd docs f1 wa = (Inr found', w2)" by simp
  have p: "\<forall>r \<in> set f1. persisted w wa r"
    using scan_doc_persisted [OF step [unfolded r1] Cons.prems(2,3,4)] .
  show ?case
    using Cons.IH [OF rest _ _ p] g Cons.prems(2,3)
    by (meson prefix_order.trans)
qed

lemma scan_append:
  "scan nid nd (pre @ rest) found w =
     (case scan nid nd pre found w of
        (Inl e, w1) \<Rightarrow> (Inl e, w1)
      | (Inr found1, w1) \<Rightarrow> scan nid nd rest found1 w1)"
  by (induction pre arbitrary: found w) (auto split: prod.splits sum.splits)

text \<open>One turn of the scan, for a candidate whose score is computed.\<close>

lemma scan_doc_served:
  assumes "score existingItem newItemData = Inr s"
  shows "(s < 30 \<longrightarrow>
            scan_doc newItemId newItemData (i, existingItem) found w = (Inr found, w)) \<and>
         (30 \<le> s \<and> status newItemData = Some st \<and> accepts 2 w \<longrightarrow>
            fresh_id (matches w) \<notin> fst ` set (matches w) \<and>
            fresh_id (notifications w) \<notin> fst ` set (notifications w) \<and>
            scan_doc newItemId newItemData (i, existingItem) found w =
              (Inr (found @ [\<lparr>res_match_id = fresh_id (matches w),
                              res_confidence_score = s,
                              matched_item_id = i,
                              matched_item_title = title existingItem,
                              matched_item_description = description existingItem\<rparr>]),
               w\<lparr>matches := matches w @ [(fresh_id (matches w),
                    \<lparr>lost_item_id = (if st = ''Lost'' then newItemId else i),
                     found_item_id = (if st = ''Found'' then newItemId else i),
                     confidence_score = s,
                     match_status = ''Pending'',
                     created_at = clock w,
                     updated_at = None\<rparr>)],
                 notifications := notifications w @ [(fresh_id (notifications w),
                    \<lparr>user_id = posted_by existingItem,
                     message = notification_message st (title newItemData),
                     is_read = False,
                     notification_created_at = Suc (clock w),
                     match_id = fresh_id (matches w),
                     read_at = None\<rparr>)],
                 clock := clock w + 2,
                 faults := drop 2 (faults w)\<rparr>))"
proof (intro conjI impI)
  assume "s < 30"
  then show "scan_doc newItemId newItemData (i, existingItem) found w = (Inr found, w)"
    using assms by (simp add: scan_doc_def)
next
  assume h: "30 \<le> s \<and> status newItemData = Some st \<and> accepts 2 w"
  show "fresh_id (matches w) \<notin> fst ` set (matches w)" by (rule fresh_id_notin)
  show "fresh_id (notifications w) \<notin> fst ` set (notifications w)" by (rule fresh_id_notin)
  from h have a: "\<not> rejects w" "\<not> rejects (after_call w)"
    by (simp_all add: numeral_2_eq_2 accepts_Suc)
  then have b: "\<not> rejects ((after_call w)\<lparr>matches := ms\<rparr>)" for ms
    by (simp add: rejects_def after_call_def)
  show "scan_doc newItemId newItemData (i, existingItem) found w =
              (Inr (found @ [\<lparr>res_match_id = fresh_id (matches w),
                              res_confidence_score = s,
                              matched_item_id = i,
                              matched_item_title = title existingItem,
                              matched_item_description = description existingItem\<rparr>]),
               w\<lparr>matches := matches w @ [(fresh_id (matches w),
                    \<lparr>lost_item_id = (if st = ''Lost'' then newItemId else i),
                     found_item_id = (if st = ''Found'' then newItemId else i),
                     confidence_score = s,
                     match_status = ''Pending'',
                     created_at = clock w,
                     updated_at = None\<rparr>)],
                 notifications := notifications w @ [(fresh_id (notifications w),
                    \<lparr>user_id = posted_by existingItem,
                     message = notification_message st (title newItemData),
                     is_read = False,
                     notification_created_at = Suc (clock w),
                     match_id = fresh_id (matches w),
                     read_at = None\<rparr>)],
                 clock := clock w + 2,
                 faults := drop 2 (faults w)\<rparr>)"
    using assms h a b
    by (simp add: scan_doc_def Let_def set_match_def set_notification_def update_fresh_id
        after_call_def drop_Suc numeral_2_eq_2 drop_tl)
qed

text \<open>A scan whose writes the store serves.\<close>

lemma accepts_split:
  "accepts (m + n) w = (accepts m w \<and> (\<forall>b \<in> set (take n (drop m (faults w))). \<not> b))"
  by (auto simp: accepts_def take_add)

lemma hits_Cons_low:
  "score (snd doc) nd = Inr s \<Longrightarrow> s < 30 \<Longrightarrow> hits nd (doc # docs) = hits nd docs"
  by (simp add: hits_def)

lemma hits_Cons_high:
  "score (snd doc) nd = Inr s \<Longrightarrow> 30 \<le> s \<Longrightarrow> hits nd (doc # docs) = doc # hits nd docs"
  by (simp add: hits_def)

lemma scan_served:
  assumes st: "status nd = Some st"
  shows "(\<forall>doc \<in> set docs. \<exists>s. score (snd doc) nd = Inr s) \<Longrightarrow>
         accepts (2 * length (hits nd docs)) w \<Longrightarrow>
         \<exists>M N found' w'.
           scan nid nd docs found w = (Inr found', w')
           \<and> matches w' = matches w @ M \<and> notifications w' = notifications w @ N
           \<and> faults w' = drop (2 * length (hits nd docs)) (faults w)
           \<and> map res_match_id found' = map res_match_id found @ map fst M
           \<and> list_all2 (match_for st nid nd) (hits nd docs) M
           \<and> list_all2 (\<lambda>(doc, p) q. notification_for doc p q) (zip (hits nd docs) M) N
           \<and> distinct (map fst M) \<and> (\<forall>p \<in> set M. fst p \<notin> fst ` set (matches w))
           \<and> distinct (map fst N) \<and> (\<forall>q \<in> set N. fst q \<notin> fst ` set (notifications w))"
proof (induction docs arbitrary: found w)
  case Nil
  then show ?case by (simp add: hits_def)
next
  case (Cons doc docs)
  obtain i e where doc: "doc = (i, e)" by (cases doc)
  from Cons.prems(1) doc obtain s where s: "score e nd = Inr s" by auto
  have rest: "\<forall>doc \<in> set docs. \<exists>s. score (snd doc) nd = Inr s"
    using Cons.prems(1) by simp
  show ?case
  proof (cases "s < 30")
    case True
    with s doc have h: "hits nd (doc # docs) = hits nd docs"
      by (simp add: hits_Cons_low)
    from scan_doc_served [OF s] True
    have step: "scan_doc nid nd doc found w = (Inr found, w)"
      by (simp add: doc)
    from Cons.IH [OF rest, of w found] Cons.prems(2) h step show ?thesis
      by simp
  next
    case False
    then have high: "30 \<le> s" by simp
    with s doc have h: "hits nd (doc # docs) = doc # hits nd docs"
      by (simp add: hits_Cons_high)
    define mid where "mid = fresh_id (matches w)"
    define m where "m = \<lparr>lost_item_id = (if st = ''Lost'' then nid else i),
                     found_item_id = (if st = ''Found'' then nid else i),
                     confidence_score = s,
                     match_status = ''Pending'',
                     created_at = clock w,
                     updated_at = None\<rparr>"
    define qid where "qid = fresh_id (notifications w)"
    define n where "n = \<lparr>user_id = posted_by e,
                     message = notification_message st (title nd),
                     is_read = False,
                     notification_created_at = Suc (clock w),
                     match_id = mid,
                     read_at = None\<rparr>"
    define r where "r = \<lparr>res_match_id = mid,
                              res_confidence_score = s,
                              matched_item_id = i,
                              matched_item_title = title e,
                              matched_item_description = description e\<rparr>"
    define wa where "wa = w\<lparr>matches := matches w @ [(mid, m)],
                 notifications := notifications w @ [(qid, n)],
                 clock := clock w + 2,
                 faults := drop 2 (faults w)\<rparr>"
    from Cons.prems(2) h have acc: "accepts (2 + 2 * length (hits nd docs)) w"
      by simp
    then have a2: "accepts 2 w"
      and ar: "accepts (2 * length (hits nd docs)) wa"
      unfolding accepts_split by (auto simp: wa_def accepts_def)
    from scan_doc_served [OF s, where st = st and w = w and newItemId = nid and i = i
        and found = found] high st a2
    have step: "scan_doc nid nd doc found w = (Inr (found @ [r]), wa)"
      by (simp add: doc r_def wa_def mid_def m_def qid_def n_def)
    from Cons.IH [OF rest ar, of "found @ [r]"] obtain M N found' w' where
      ih: "scan nid nd docs (found @ [r]) wa = (Inr found', w')"
        "matches w' = matches wa @ M" "notifications w' = notifications wa @ N"
        "faults w' = drop (2 * length (hits nd docs)) (faults wa)"
        "map res_match_id found' = map res_match_id (found @ [r]) @ map fst M"
        "list_all2 (match_for st nid nd) (hits nd docs) M"
        "list_all2 (\<lambda>(doc, p) q. notification_for doc p q) (zip (hits nd docs) M) N"
        "distinct (map fst M)" "\<forall>p \<in> set M. fst p \<notin> fst ` set (matches wa)"
        "distinct (map fst N)" "\<forall>q \<in> set N. fst q \<notin> fst ` set (notifications wa)"
      by blast
    have c1: "scan nid nd (doc # docs) found w = (Inr found', w')"
      using step ih(1) by simp
    have c2: "matches w' = matches w @ (mid, m) # M"
      using ih(2) by (simp add: wa_def)
    have c3: "notifications w' = notifications w @ (qid, n) # N"
      using ih(3) by (simp add: wa_def)
    have c4: "faults w' = drop (2 * length (hits nd (doc # docs))) (faults w)"
      using ih(4) h by (simp add: wa_def add.commute)
    have c5: "map res_match_id found' = map res_match_id found @ map fst ((mid, m) # M)"
      using ih(5) by (simp add: r_def)
    have c6: "list_all2 (match_for st nid nd) (hits nd (doc # docs)) ((mid, m) # M)"
      using ih(6) h s by (simp add: match_for_def doc m_def)
    have c7: "list_all2 (\<lambda>(doc, p) q. notification_for doc p q)
                (zip (hits nd (doc # docs)) ((mid, m) # M)) ((qid, n) # N)"
      using ih(7) h by (simp add: notification_for_def doc n_def)
    have c8: "distinct (map fst ((mid, m) # M))"
      using ih(8,9) by (auto simp: wa_def)
    have c9: "\<forall>p \<in> set ((mid, m) # M). fst p \<notin> fst ` set (matches w)"
      using ih(9) fresh_id_notin [of "matches w"] by (auto simp: wa_def mid_def)
    have c10: "distinct (map fst ((qid, n) # N))"
      using ih(10,11) by (auto simp: wa_def)
    have c11: "\<forall>q \<in> set ((qid, n) # N). fst q \<notin> fst ` set (notifications w)"
      using ih(11) fresh_id_notin [of "notifications w"] by (auto simp: wa_def qid_def)
    from c1 c2 c3 c4 c5 c6 c7 c8 c9 c10 c11 show ?thesis by blast
  qed
qed

lemma snd_generateMatches:
  "snd (generateMatches nid nd w) = snd (generateMatches_try nid nd w)"
  by (simp add: generateMatches_def split: prod.splits sum.splits)

lemma query_items_served:
  assumes "query_items cat s w = (Inr docs, w0)"
  shows "w0 = after_call w \<and> \<not> rejects w"
  using assms by (auto simp: query_items_def split: if_splits)

section \<open>POST /items\<close>

lemma accepts_1: "accepts (Suc 0) w = (\<not> rejects w)"
  by (simp add: accepts_Suc accepts_0)

lemma accepts_3: "accepts 3 w = (\<not> rejects w \<and> \<not> rejects (after_call w)
    \<and> \<not> rejects (after_call (after_call w)))"
  by (simp add: eval_nat_numeral accepts_Suc accepts_0)

lemma rejects_bucket_update [simp]: "rejects (w\<lparr>bucket := b\<rparr>) = rejects w"
  by (simp add: rejects_def)

lemma after_call_bucket_update [simp]:
  "after_call (w\<lparr>bucket := b\<rparr>) = (after_call w)\<lparr>bucket := b\<rparr>"
  by (simp add: after_call_def)

lemma upload_served:
  assumes "accepts 3 w"
  shows "\<exists>url w1. uploadImageToStorage f w = (Inr url, w1) \<and> items w1 = items w
           \<and> \<not> rejects w1"
  using assms by (simp add: uploadImageToStorage_def Let_def accepts_3)

lemma generateMatches_catches:
  "generateMatches_try i d w = (Inl e, w') \<Longrightarrow> generateMatches i d w = ([], w')"
  by (simp add: generateMatches_def)

text \<open>
  What the validation does reject, before any upload and any write: a field that is
  absent or empty as received, and a status other than \<open>Lost\<close> and \<open>Found\<close>.
\<close>

lemma createItem_validation:
  assumes "\<not> truthy (req_title body) \<or> \<not> truthy (req_category body)
           \<or> \<not> truthy (req_status body)
           \<or> req_status body \<notin> {Some ''Lost'', Some ''Found''}"
  shows "response_code (fst (createItem body file uid w)) = 400
         \<and> snd (createItem body file uid w) = w"
  using assms by (auto simp: createItem_def truthy_def split: option.splits)

section \<open>The claims\<close>

text \<open>
  C1 (amended). In a call of generateMatches whose query is served, take the candidates
  scanned up to some point (\<open>pre\<close>), all with a computed score, and let the store
  serve the two writes of each of them that scores at least 30. Then the documents
  created for them are, in the order of the scan, exactly one Match per candidate that
  scores at least 30 (status Pending, the computed score, pairing the new item with the
  candidate) and exactly one Notification per such Match (its \<open>match_id\<close> the Match's
  identifier, its \<open>user_id\<close> the candidate's \<open>posted_by\<close>), all under identifiers new to
  their collections; a candidate that scores below 30 gets neither. They stay in the
  store to the end of the call, and when these are all the candidates the store holds
  nothing else new and the returned list names exactly these Matches.
\<close>

theorem generateMatches_creates:
  assumes "query_items (category nd) (if status nd = Some ''Lost'' then ''Found'' else ''Lost'') w
             = (Inr (pre @ rest), w0)"
      and "status nd = Some st"
      and "\<forall>doc \<in> set pre. \<exists>s. score (snd doc) nd = Inr s"
      and "accepts (Suc (2 * length (hits nd pre))) w"
  shows "\<exists>M N.
           list_all2 (match_for st nid nd) (hits nd pre) M
           \<and> list_all2 (\<lambda>(doc, p) q. notification_for doc p q) (zip (hits nd pre) M) N
           \<and> distinct (map fst M) \<and> (\<forall>p \<in> set M. map_of (matches w) (fst p) = None)
           \<and> distinct (map fst N) \<and> (\<forall>q \<in> set N. map_of (notifications w) (fst q) = None)
           \<and> prefix (matches w @ M) (matches (snd (generateMatches nid nd w)))
           \<and> prefix (notifications w @ N) (notifications (snd (generateMatches nid nd w)))
           \<and> (rest = [] \<longrightarrow>
                 matches (snd (generateMatches nid nd w)) = matches w @ M
                 \<and> notifications (snd (generateMatches nid nd w)) = notifications w @ N
                 \<and> map res_match_id (fst (generateMatches nid nd w)) = map fst M)"
proof -
  from query_items_served [OF assms(1)] have w0: "w0 = after_call w" and "\<not> rejects w"
    by simp_all
  with assms(4) have acc: "accepts (2 * length (hits nd pre)) w0"
    by (simp add: accepts_Suc)
  from scan_served [OF assms(2,3) acc, of nid "[]"] obtain M N found' wa where
    sc: "scan nid nd pre [] w0 = (Inr found', wa)"
      "matches wa = matches w0 @ M" "notifications wa = notifications w0 @ N"
      "map res_match_id found' = map fst M"
      "list_all2 (match_for st nid nd) (hits nd pre) M"
      "list_all2 (\<lambda>(doc, p) q. notification_for doc p q) (zip (hits nd pre) M) N"
      "distinct (map fst M)" "\<forall>p \<in> set M. fst p \<notin> fst ` set (matches w0)"
      "distinct (map fst N)" "\<forall>q \<in> set N. fst q \<notin> fst ` set (notifications w0)"
    by auto
  have body: "generateMatches_try nid nd w = scan nid nd rest found' wa"
    using assms(1) sc(1) by (simp add: generateMatches_try_def scan_append)
  obtain r w' where fin: "scan nid nd rest found' wa = (r, w')"
    by (cases "scan nid nd rest found' wa")
  have w': "snd (generateMatches nid nd w) = w'"
    using body fin by (simp add: snd_generateMatches)
  note g = scan_grows [OF fin]
  have p1: "prefix (matches w @ M) (matches (snd (generateMatches nid nd w)))"
    using g sc(2) by (simp add: w' w0)
  have p2: "prefix (notifications w @ N) (notifications (snd (generateMatches nid nd w)))"
    using g sc(3) by (simp add: w' w0)
  have n1: "\<forall>p \<in> set M. map_of (matches w) (fst p) = None"
    using sc(8) by (simp add: w0 map_of_eq_None_iff)
  have n2: "\<forall>q \<in> set N. map_of (notifications w) (fst q) = None"
    using sc(10) by (simp add: w0 map_of_eq_None_iff)
  have whole: "matches (snd (generateMatches nid nd w)) = matches w @ M
                 \<and> notifications (snd (generateMatches nid nd w)) = notifications w @ N
                 \<and> map res_match_id (fst (generateMatches nid nd w)) = map fst M"
    if "rest = []"
    using that body sc(2,3,4) by (simp add: generateMatches_def w0)
  from sc(5,6,7,9) n1 n2 p1 p2 whole show ?thesis by blast
qed

theorem generateMatches_creates_witness:
  "fst (query_items (category lost_bag)
          (if status lost_bag = Some ''Lost'' then ''Found'' else ''Lost'')
          (world_of [(1, found_bag), (2, keys_item), (3, other_bag)]
             [False, False, False, False, False, True]))
     = Inr ([(1, found_bag), (2, keys_item), (3, other_bag)] @ []) \<and>
   status lost_bag = Some ''Lost'' \<and>
   map (\<lambda>doc. score (snd doc) lost_bag) [(1, found_bag), (2, keys_item), (3, other_bag)]
     = [Inr 60, Inr 20, Inr 40] \<and>
   map fst (hits lost_bag [(1, found_bag), (2, keys_item), (3, other_bag)]) = [1, 3] \<and>
   accepts 5 (world_of [(1, found_bag), (2, keys_item), (3, other_bag)]
             [False, False, False, False, False, True]) \<and>
   length (matches (snd (generateMatches 4 lost_bag
             (world_of [(1, found_bag), (2, keys_item), (3, other_bag)]
             [False, False, False, False, False, True])))) = 2 \<and>
   length (notifications (snd (generateMatches 4 lost_bag
             (world_of [(1, found_bag), (2, keys_item), (3, other_bag)]
             [False, False, False, False, False, True])))) = 2 \<and>
   map (\<lambda>p. (fst p, lost_item_id (snd p), found_item_id (snd p), confidence_score (snd p),
              match_status (snd p)))
     (matches (snd (generateMatches 4 lost_bag
             (world_of [(1, found_bag), (2, keys_item), (3, other_bag)]
             [False, False, False, False, False, True]))))
     = [(1, 4, 1, 60, ''Pending''), (2, 4, 3, 40, ''Pending'')] \<and>
   map (\<lambda>q. (match_id (snd q), user_id (snd q)))
     (notifications (snd (generateMatches 4 lost_bag
             (world_of [(1, found_bag), (2, keys_item), (3, other_bag)]
             [False, False, False, False, False, True]))))
     = [(1, Some ''bob''), (2, Some ''carol'')]"
proof -
  let ?docs = "[(1, found_bag), (2, keys_item), (3, other_bag)]"
  let ?w = "world_of ?docs [False, False, False, False, False, True]"
  let ?wa = "snd (query_items (category lost_bag)
                (if status lost_bag = Some ''Lost'' then ''Found'' else ''Lost'') ?w)"
  have qf: "fst (query_items (category lost_bag)
                (if status lost_bag = Some ''Lost'' then ''Found'' else ''Lost'') ?w)
          = Inr (?docs @ [])"
    by code_simp
  then have q: "query_items (category lost_bag)
                (if status lost_bag = Some ''Lost'' then ''Found'' else ''Lost'') ?w
          = (Inr (?docs @ []), ?wa)"
    by (simp add: prod_eq_iff)
  have st: "status lost_bag = Some ''Lost''"
    by (simp add: lost_bag_def item_of_def)
  have scs: "map (\<lambda>doc. score (snd doc) lost_bag) ?docs = [Inr 60, Inr 20, Inr 40]"
    by code_simp
  then have sc: "\<forall>doc \<in> set ?docs. \<exists>s. score (snd doc) lost_bag = Inr s"
    by simp
  have h: "map fst (hits lost_bag ?docs) = [1, 3]"
    by code_simp
  then have len: "length (hits lost_bag ?docs) = 2"
    by (metis length_map list.size(3,4) One_nat_def Suc_1 add.left_neutral plus_1_eq_Suc)
  have a5: "accepts 5 ?w"
    by (simp add: accepts_def world_of_def)
  have acc: "accepts (Suc (2 * length (hits lost_bag ?docs))) ?w"
    unfolding len by (simp add: accepts_def world_of_def)
  from generateMatches_creates [OF q st sc acc, of 4] obtain M N where
    mn: "list_all2 (match_for ''Lost'' 4 lost_bag) (hits lost_bag ?docs) M"
        "list_all2 (\<lambda>(doc, p) q. notification_for doc p q) (zip (hits lost_bag ?docs) M) N"
        "matches (snd (generateMatches 4 lost_bag ?w)) = matches ?w @ M"
        "notifications (snd (generateMatches 4 lost_bag ?w)) = notifications ?w @ N"
    by blast
  from mn(1) have lm: "length M = 2"
    using len by (simp add: list_all2_lengthD [symmetric])
  from mn(2) have "length N = 2"
    using len lm by (simp add: list_all2_lengthD [symmetric])
  with lm mn(3,4) have l: "length (matches (snd (generateMatches 4 lost_bag ?w))) = 2"
    "length (notifications (snd (generateMatches 4 lost_bag ?w))) = 2"
    by (simp_all add: world_of_def)
  have ms: "map (\<lambda>p. (fst p, lost_item_id (snd p), found_item_id (snd p),
                      confidence_score (snd p), match_status (snd p)))
     (matches (snd (generateMatches 4 lost_bag ?w)))
     = [(1, 4, 1, 60, ''Pending''), (2, 4, 3, 40, ''Pending'')]"
    by code_simp
  have ns: "map (\<lambda>q. (match_id (snd q), user_id (snd q)))
     (notifications (snd (generateMatches 4 lost_bag ?w)))
     = [(1, Some ''bob''), (2, Some ''carol'')]"
    by code_simp
  from qf st scs h a5 l ms ns show ?thesis by blast
qed

text \<open>
  C1 as stated fails: the Match and its Notification are written by two calls with no
  transaction around them. Here the candidate scores 60, the write of the Match is
  served and the write of the Notification is rejected: the Match is in the store, no
  Notification is, and the call returns the empty list.
\<close>

theorem notification_write_rejected_counterexample:
  "score found_bag lost_bag = Inr 60 \<and>
   fst (generateMatches 2 lost_bag (world_of [(1, found_bag)] [False, False, True])) = [] \<and>
   map (\<lambda>p. (fst p, lost_item_id (snd p), found_item_id (snd p), confidence_score (snd p),
              match_status (snd p)))
     (matches (snd (generateMatches 2 lost_bag (world_of [(1, found_bag)] [False, False, True]))))
     = [(1, 2, 1, 60, ''Pending'')] \<and>
   notifications (snd (generateMatches 2 lost_bag (world_of [(1, found_bag)] [False, False, True])))
     = []"
  by code_simp

text \<open>
  C2 (amended). PUT /matches/:id/status does not read the match's current status: a call
  by an owner of either item, with a new status among Pending, Confirmed and Rejected,
  whose reads and whose write of the match the store serves, sets the status to the new
  value whatever it was before. Confirmed and Rejected are not terminal.
\<close>

theorem updateMatchStatus_overwrites:
  assumes "s \<in> {''Pending'', ''Confirmed'', ''Rejected''}"
      and "map_of (matches w) i = Some m"
      and "posted_by_of (map_of (items w) (lost_item_id m)) = Some uid
           \<or> posted_by_of (map_of (items w) (found_item_id m)) = Some uid"
      and "accepts 4 w"
  shows "map_of (matches (snd (updateMatchStatus i (Some s) uid w))) i =
           Some (m\<lparr>match_status := s, updated_at := Some (clock w + 3)\<rparr>)
         \<and> (s \<noteq> ''Confirmed'' \<longrightarrow>
              fst (updateMatchStatus i (Some s) uid w)
                = Success 200 ''Match status updated successfully'' ())"
  using assms
  by (auto simp: updateMatchStatus_def accepts_4 store_defs AList.update_conv'
           split: prod.splits sum.splits dest!: update_item_status_matchesD)

theorem updateMatchStatus_overwrites_witness:
  "''Pending'' \<in> {''Pending'', ''Confirmed'', ''Rejected''} \<and>
   map_of (matches (match_world [(1, lost_bag), (2, found_bag)] ''Rejected'' [])) 1
     = Some (match_of ''Rejected'') \<and>
   accepts 4 (match_world [(1, lost_bag), (2, found_bag)] ''Rejected'' []) \<and>
   map_of (matches (snd (updateMatchStatus 1 (Some ''Pending'') ''bob''
                           (match_world [(1, lost_bag), (2, found_bag)] ''Rejected'' [])))) 1
     = Some (match_of ''Pending''\<lparr>updated_at := Some 9\<rparr>)"
proof -
  let ?w = "match_world [(1, lost_bag), (2, found_bag)] ''Rejected'' []"
  have s: "''Pending'' \<in> {''Pending'', ''Confirmed'', ''Rejected''}" by simp
  have m: "map_of (matches ?w) 1 = Some (match_of ''Rejected'')"
    by (simp add: match_world_def)
  have own: "posted_by_of (map_of (items ?w) (lost_item_id (match_of ''Rejected''))) = Some ''bob''
             \<or> posted_by_of (map_of (items ?w) (found_item_id (match_of ''Rejected''))) = Some ''bob''"
    by (simp add: match_world_def match_of_def posted_by_of_def found_bag_def item_of_def)
  have acc: "accepts 4 ?w"
    by (simp add: accepts_def match_world_def)
  show ?thesis
    using updateMatchStatus_overwrites [OF s m own acc] s m acc
    by (simp add: match_world_def match_of_def)
qed

text \<open>
  C2 as stated fails: a match confirmed by one owner is rejected by the other in the
  next call.
\<close>

theorem confirmed_then_rejected_counterexample:
  "fst (updateMatchStatus 1 (Some ''Confirmed'') ''alice''
          (match_world [(1, lost_bag), (2, found_bag)] ''Pending'' []))
     = Success 200 ''Match status updated successfully'' () \<and>
   map_option match_status
     (map_of (matches (snd (updateMatchStatus 1 (Some ''Confirmed'') ''alice''
          (match_world [(1, lost_bag), (2, found_bag)] ''Pending'' [])))) 1)
     = Some ''Confirmed'' \<and>
   fst (updateMatchStatus 1 (Some ''Rejected'') ''bob''
          (snd (updateMatchStatus 1 (Some ''Confirmed'') ''alice''
             (match_world [(1, lost_bag), (2, found_bag)] ''Pending'' []))))
     = Success 200 ''Match status updated successfully'' () \<and>
   map_option match_status
     (map_of (matches (snd (updateMatchStatus 1 (Some ''Rejected'') ''bob''
          (snd (updateMatchStatus 1 (Some ''Confirmed'') ''alice''
             (match_world [(1, lost_bag), (2, found_bag)] ''Pending'' [])))))) 1)
     = Some ''Rejected''"
  by code_simp

text \<open>
  C3 (the code departs from the claim). The description and the location factors are
  guarded and add 0 when a side is absent or empty (\<open>description_factor_missing\<close>,
  \<open>location_factor_missing\<close>); the title factor is not. A title of white space passes
  the validation of POST /items and is stored trimmed, as the empty string; every string
  includes the empty string, so the title factor adds 40 and a Match is created with an
  unrelated item. An absent title raises instead of adding 0.
\<close>

theorem empty_title_scores_40:
  "trim '' '' = [] \<and>
   score (item_of ''Keys'' [] [] ''Found'' ''bob'') (item_of [] [] [] ''Lost'' ''alice'') = Inr 40 \<and>
   fst (createItem (body_of '' '' ''Bags'' ''Lost'') None ''alice''
          (world_of [(1, item_of ''Keys'' [] [] ''Found'' ''bob'')] [])) =
     Success 201 ''Item created successfully''
       (2, item_of [] [] [] ''Lost'' ''alice''\<lparr>date := 0\<rparr>,
        [\<lparr>res_match_id = 1, res_confidence_score = 40, matched_item_id = 1,
          matched_item_title = Some ''Keys'', matched_item_description = Some []\<rparr>]) \<and>
   score (item_of ''Keys'' [] [] ''Found'' ''bob''\<lparr>title := None\<rparr>)
         (item_of ''Keys'' [] [] ''Lost'' ''alice'') = Inl TypeError"
  by code_simp

text \<open>
  C4 (amended). The title factor and the location factor are symmetric. The description
  factor counts the words of the new item's description that occur in the existing
  item's, repetitions included; it is symmetric, and so is the total score, when neither
  description repeats a word.
\<close>

theorem score_symmetric:
  "title_factor (title a) (title b) = title_factor (title b) (title a) \<and>
   location_factor (location a) (location b) = location_factor (location b) (location a) \<and>
   (distinct_words (description a) \<and> distinct_words (description b) \<longrightarrow>
      description_factor (description a) (description b)
        = description_factor (description b) (description a)
      \<and> score a b = score b a)"
proof -
  have t: "title_factor (title a) (title b) = title_factor (title b) (title a)"
    by (rule title_factor_sym)
  have l: "location_factor (location a) (location b) = location_factor (location b) (location a)"
    by (rule location_factor_sym)
  have d: "description_factor (description a) (description b)
             = description_factor (description b) (description a)"
    if "distinct_words (description a)" "distinct_words (description b)"
    using that by (rule description_factor_sym)
  have "score a b = score b a"
    if "distinct_words (description a)" "distinct_words (description b)"
    unfolding score_def t l d [OF that] ..
  with t l d show ?thesis by blast
qed

theorem score_symmetric_witness:
  "distinct_words (description (item_of ''Blue Backpack'' ''blue bag'' ''Library'' ''Lost'' ''alice'')) \<and>
   distinct_words (description (item_of ''backpack'' ''bag with blue straps'' ''library'' ''Found'' ''bob'')) \<and>
   score (item_of ''Blue Backpack'' ''blue bag'' ''Library'' ''Lost'' ''alice'')
         (item_of ''backpack'' ''bag with blue straps'' ''library'' ''Found'' ''bob'') = Inr 70 \<and>
   score (item_of ''backpack'' ''bag with blue straps'' ''library'' ''Found'' ''bob'')
         (item_of ''Blue Backpack'' ''blue bag'' ''Library'' ''Lost'' ''alice'') = Inr 70"
proof -
  have a: "distinct_words (description (item_of ''Blue Backpack'' ''blue bag'' ''Library'' ''Lost'' ''alice''))"
    by code_simp
  have b: "distinct_words (description (item_of ''backpack'' ''bag with blue straps'' ''library'' ''Found'' ''bob''))"
    by code_simp
  have s: "score (item_of ''Blue Backpack'' ''blue bag'' ''Library'' ''Lost'' ''alice'')
         (item_of ''backpack'' ''bag with blue straps'' ''library'' ''Found'' ''bob'') = Inr 70"
    by code_simp
  show ?thesis
    using score_symmetric [of "item_of ''Blue Backpack'' ''blue bag'' ''Library'' ''Lost'' ''alice''"
        "item_of ''backpack'' ''bag with blue straps'' ''library'' ''Found'' ''bob''"] a b s
    by simp
qed

text \<open>
  C4 as stated fails: a word repeated on one side is counted once in one order and
  three times in the other.
\<close>

theorem score_asymmetric_counterexample:
  "description_factor (Some ''the bag'') (Some ''the keys and the phone and the card'') = 15 \<and>
   description_factor (Some ''the keys and the phone and the card'') (Some ''the bag'') = 5 \<and>
   score (item_of ''Wallet'' ''the bag'' [] ''Found'' ''alice'')
         (item_of ''Keys'' ''the keys and the phone and the card'' [] ''Lost'' ''bob'') = Inr 15 \<and>
   score (item_of ''Keys'' ''the keys and the phone and the card'' [] ''Lost'' ''bob'')
         (item_of ''Wallet'' ''the bag'' [] ''Found'' ''alice'') = Inr 5"
  by code_simp

text \<open>
  C5. A successful call with the new status Confirmed leaves the match Confirmed and both
  referenced items Returned, whatever their status was; after a second such call, served
  or not, the match is still Confirmed and both items are still Returned, and the second
  call succeeds when the store serves its six calls.
\<close>

theorem confirm_sets_returned:
  assumes "map_of (matches w) i = Some m"
      and "updateMatchStatus i (Some ''Confirmed'') uid w = (Success 200 msg x, w1)"
  shows "settled i (lost_item_id m) (found_item_id m) w1
         \<and> settled i (lost_item_id m) (found_item_id m)
               (snd (updateMatchStatus i (Some ''Confirmed'') uid w1))
         \<and> (accepts 6 w1 \<longrightarrow>
               fst (updateMatchStatus i (Some ''Confirmed'') uid w1)
                 = Success 200 ''Match status updated successfully'' ())"
proof -
  from confirm_success [OF assms] obtain dl df where
    own: "posted_by dl = Some uid \<or> posted_by df = Some uid" and
    m1: "map_of (matches w1) i
           = Some (m\<lparr>match_status := ''Confirmed'', updated_at := Some (clock w + 3)\<rparr>)" and
    l1: "map_of (items w1) (lost_item_id m) = Some (dl\<lparr>status := Some ''Returned''\<rparr>)" and
    f1: "map_of (items w1) (found_item_id m) = Some (df\<lparr>status := Some ''Returned''\<rparr>)"
    by blast
  have first: "settled i (lost_item_id m) (found_item_id m) w1"
    by (simp add: settled_def m1 l1 f1)
  have second: "settled i (lost_item_id m) (found_item_id m)
                  (snd (updateMatchStatus i (Some ''Confirmed'') uid w1))"
    using confirm_again_state [OF m1, of "dl\<lparr>status := Some ''Returned''\<rparr>"
        "df\<lparr>status := Some ''Returned''\<rparr>" uid] l1 f1
    by simp
  have third: "fst (updateMatchStatus i (Some ''Confirmed'') uid w1)
                 = Success 200 ''Match status updated successfully'' ()"
    if "accepts 6 w1"
    using confirm_again_success [OF m1, of "dl\<lparr>status := Some ''Returned''\<rparr>"
        "df\<lparr>status := Some ''Returned''\<rparr>" uid] l1 f1 own that
    by simp
  from first second third show ?thesis by blast
qed

theorem confirm_sets_returned_witness:
  "map_of (matches (match_world [(1, lost_bag), (2, found_bag)] ''Pending'' [])) 1
     = Some (match_of ''Pending'') \<and>
   fst (updateMatchStatus 1 (Some ''Confirmed'') ''alice''
          (match_world [(1, lost_bag), (2, found_bag)] ''Pending'' []))
     = Success 200 ''Match status updated successfully'' () \<and>
   settled 1 1 2 (snd (updateMatchStatus 1 (Some ''Confirmed'') ''alice''
          (match_world [(1, lost_bag), (2, found_bag)] ''Pending'' []))) \<and>
   settled 1 1 2 (snd (updateMatchStatus 1 (Some ''Confirmed'') ''alice''
          (snd (updateMatchStatus 1 (Some ''Confirmed'') ''alice''
             (match_world [(1, lost_bag), (2, found_bag)] ''Pending'' []))))) \<and>
   accepts 6 (snd (updateMatchStatus 1 (Some ''Confirmed'') ''alice''
          (match_world [(1, lost_bag), (2, found_bag)] ''Pending'' []))) \<and>
   fst (updateMatchStatus 1 (Some ''Confirmed'') ''alice''
          (snd (updateMatchStatus 1 (Some ''Confirmed'') ''alice''
             (match_world [(1, lost_bag), (2, found_bag)] ''Pending'' []))))
     = Success 200 ''Match status updated successfully'' ()"
proof -
  let ?w = "match_world [(1, lost_bag), (2, found_bag)] ''Pending'' []"
  have m: "map_of (matches ?w) 1 = Some (match_of ''Pending'')"
    by (simp add: match_world_def)
  have r: "fst (updateMatchStatus 1 (Some ''Confirmed'') ''alice'' ?w)
             = Success 200 ''Match status updated successfully'' ()"
    by code_simp
  then have run: "updateMatchStatus 1 (Some ''Confirmed'') ''alice'' ?w
             = (Success 200 ''Match status updated successfully'' (),
                snd (updateMatchStatus 1 (Some ''Confirmed'') ''alice'' ?w))"
    by (simp add: prod_eq_iff)
  have acc: "accepts 6 (snd (updateMatchStatus 1 (Some ''Confirmed'') ''alice'' ?w))"
    by code_simp
  show ?thesis
    using confirm_sets_returned [OF m run] m r acc
    by (simp add: match_of_def)
qed

text \<open>
  C6 (the code departs from the claim). The handler tests \<^verbatim>\<open>!title\<close> on the field
  as received and trims only when it builds the document. A title of white space is
  therefore not rejected: the request is answered 201, the image is uploaded and the
  item is stored with the empty title, although the handler's own message calls the
  title a required field.
\<close>

theorem createItem_blank_title_accepted:
  "trim '' '' = [] \<and>
   response_code (fst (createItem (body_of '' '' ''Bags'' ''Lost'') (Some photo) ''alice''
                         (world_of [] []))) = 201 \<and>
   bucket (snd (createItem (body_of '' '' ''Bags'' ''Lost'') (Some photo) ''alice''
                  (world_of [] []))) = [''items/1700000000000_42_bag.png''] \<and>
   map (\<lambda>d. (fst d, title (snd d)))
     (items (snd (createItem (body_of '' '' ''Bags'' ''Lost'') (Some photo) ''alice''
                  (world_of [] [])))) = [(1, Some [])]"
  by code_simp

text \<open>
  C7. A request to POST /items that passes the validation, whose upload (when there is a
  file) and whose write of the item the store serves, is answered 201 with the created
  item, and the item is in the store, whatever the store holds and whatever the store
  does during the generation of matches: an error raised there is caught by
  generateMatches, which returns the empty list.
\<close>

theorem createItem_survives_matching:
  assumes "req_title body = Some t" "t \<noteq> []"
      and "req_category body = Some c" "c \<noteq> []"
      and "req_status body = Some s" "s \<in> {''Lost'', ''Found''}"
      and "accepts (case file of None \<Rightarrow> 1 | Some f \<Rightarrow> 3) w"
  shows "\<exists>i d w2.
           map_of (items w) i = None \<and> map_of (items w2) i = Some d
           \<and> title d = Some (trim t) \<and> posted_by d = Some uid \<and> status d = Some s
           \<and> createItem body file uid w =
               (Success 201 ''Item created successfully''
                  (i, d, fst (generateMatches i d w2)), snd (generateMatches i d w2))
           \<and> items (snd (generateMatches i d w2)) = items w2
           \<and> (\<forall>e w'. generateMatches_try i d w2 = (Inl e, w')
                  \<longrightarrow> fst (generateMatches i d w2) = [])"
proof -
  obtain url w1 where
    up: "(case file of None \<Rightarrow> (Inr [], w) | Some f \<Rightarrow> uploadImageToStorage f w) = (Inr url, w1)"
    and it: "items w1 = items w" and ok: "\<not> rejects w1"
  proof (cases "file")
    case None
    with assms(7) that [of "[]" w] show ?thesis by (simp add: accepts_1)
  next
    case (Some f)
    with assms(7) upload_served [of w f] that show ?thesis by auto
  qed
  define i where "i = fresh_id (items w1)"
  define d where "d = \<lparr>title = Some (trim t),
                        description = Some (trim_or_empty (req_description body)),
                        category = Some (trim c),
                        contact_info = Some (trim_or_empty (req_contact_info body)),
                        location = Some (trim_or_empty (req_location body)),
                        image_url = Some url,
                        posted_by = Some uid,
                        status = Some s,
                        date = clock w1\<rparr>"
  define w2 where "w2 = (after_call w1)\<lparr>items := AList.update i d (items w1)\<rparr>"
  have new: "map_of (items w) i = None"
    unfolding i_def it [symmetric] by (rule map_of_fresh_id)
  have stored: "map_of (items w2) i = Some d"
    by (simp add: w2_def AList.update_conv')
  have fields: "title d = Some (trim t)" "posted_by d = Some uid" "status d = Some s"
    by (simp_all add: d_def)
  have run: "createItem body file uid w =
               (Success 201 ''Item created successfully''
                  (i, d, fst (generateMatches i d w2)), snd (generateMatches i d w2))"
    using assms(1-6) up ok
    by (auto simp: createItem_def Let_def set_item_def i_def [symmetric] d_def [symmetric]
          w2_def [symmetric] split: prod.splits)
  have kept: "items (snd (generateMatches i d w2)) = items w2"
    by (rule generateMatches_items)
  have caught: "fst (generateMatches i d w2) = []"
    if "generateMatches_try i d w2 = (Inl e, w')" for e w'
    using generateMatches_catches [OF that] by simp
  from new stored fields run kept caught show ?thesis by blast
qed

theorem createItem_survives_matching_witness:
  "req_title (body_of ''Blue Backpack'' ''Bags'' ''Lost'') = Some ''Blue Backpack'' \<and>
   req_category (body_of ''Blue Backpack'' ''Bags'' ''Lost'') = Some ''Bags'' \<and>
   req_status (body_of ''Blue Backpack'' ''Bags'' ''Lost'') = Some ''Lost'' \<and>
   accepts 3 (world_of [(1, found_bag)] [False, False, False, True]) \<and>
   response_code (fst (createItem (body_of ''Blue Backpack'' ''Bags'' ''Lost'') (Some photo)
                         ''alice'' (world_of [(1, found_bag)] [False, False, False, True])))
     = 201"
proof -
  let ?b = "body_of ''Blue Backpack'' ''Bags'' ''Lost''"
  let ?w = "world_of [(1, found_bag)] [False, False, False, True]"
  have t: "req_title ?b = Some ''Blue Backpack''" and t': "''Blue Backpack'' \<noteq> []"
    and c: "req_category ?b = Some ''Bags''" and c': "''Bags'' \<noteq> []"
    and s: "req_status ?b = Some ''Lost''" and s': "''Lost'' \<in> {''Lost'', ''Found''}"
    by (simp_all add: body_of_def)
  have a3: "accepts 3 ?w"
    by (simp add: accepts_def world_of_def)
  then have a: "accepts (case Some photo of None \<Rightarrow> 1 | Some f \<Rightarrow> 3) ?w"
    by simp
  from createItem_survives_matching [OF t t' c c' s s' a, of "''alice''"]
  have "response_code (fst (createItem ?b (Some photo) ''alice'' ?w)) = 201"
    by auto
  with t c s a3 show ?thesis by blast
qed

text \<open>
  C8 (amended). Marking a notification read twice in succession, by its addressee and
  with the store serving the calls, succeeds both times and leaves \<open>is_read\<close> true; each
  call writes \<open>read_at\<close> anew, so after the second call \<open>read_at\<close> is the time of the
  second call.
\<close>

theorem markRead_twice:
  assumes "map_of (notifications w) i = Some n"
      and "user_id n = Some uid"
      and "accepts 4 w"
  shows "fst (markRead i uid w) = Success 200 ''Notification marked as read'' ()
         \<and> map_of (notifications (snd (markRead i uid w))) i
             = Some (n\<lparr>is_read := True, read_at := Some (clock w + 1)\<rparr>)
         \<and> fst (markRead i uid (snd (markRead i uid w)))
             = Success 200 ''Notification marked as read'' ()
         \<and> map_of (notifications (snd (markRead i uid (snd (markRead i uid w))))) i
             = Some (n\<lparr>is_read := True, read_at := Some (clock w + 3)\<rparr>)"
  using assms
  by (auto simp: markRead_def get_notification_def update_notification_read_def accepts_4
        AList.update_conv' split: prod.splits sum.splits if_splits option.splits)

theorem markRead_twice_witness:
  "map_of (notifications (match_world [(1, lost_bag), (2, found_bag)] ''Pending'' [])) 1
     = Some (notification_of ''alice'') \<and>
   user_id (notification_of ''alice'') = Some ''alice'' \<and>
   accepts 4 (match_world [(1, lost_bag), (2, found_bag)] ''Pending'' []) \<and>
   fst (markRead 1 ''alice'' (snd (markRead 1 ''alice''
          (match_world [(1, lost_bag), (2, found_bag)] ''Pending'' []))))
     = Success 200 ''Notification marked as read'' () \<and>
   map_of (notifications (snd (markRead 1 ''alice'' (snd (markRead 1 ''alice''
          (match_world [(1, lost_bag), (2, found_bag)] ''Pending'' [])))))) 1
     = Some (notification_of ''alice''\<lparr>is_read := True, read_at := Some 9\<rparr>)"
proof -
  let ?w = "match_world [(1, lost_bag), (2, found_bag)] ''Pending'' []"
  have n: "map_of (notifications ?w) 1 = Some (notification_of ''alice'')"
    by (simp add: match_world_def)
  have u: "user_id (notification_of ''alice'') = Some ''alice''"
    by (simp add: notification_of_def)
  have acc: "accepts 4 ?w"
    by (simp add: accepts_def match_world_def)
  show ?thesis
    using markRead_twice [OF n u acc] n u acc
    by (simp add: match_world_def)
qed

text \<open>
  C8 as stated fails: \<open>read_at\<close> is 7 after the first call and 9 after the second.
\<close>

theorem markRead_overwrites_read_at_counterexample:
  "map_option read_at (map_of (notifications (snd (markRead 1 ''alice''
          (match_world [(1, lost_bag), (2, found_bag)] ''Pending'' [])))) 1) = Some (Some 7) \<and>
   map_option read_at (map_of (notifications (snd (markRead 1 ''alice'' (snd (markRead 1 ''alice''
          (match_world [(1, lost_bag), (2, found_bag)] ''Pending'' [])))))) 1) = Some (Some 9)"
  by code_simp

text \<open>
  C9. generateMatches does not undo its writes. When the turn of some candidate raises
  after the turns of the candidates before it have produced the entries \<open>found\<close>,
  generateMatches returns the empty list, and for every entry of \<open>found\<close> the Match and
  its Notification, new in this call, are still in the store.
\<close>

theorem generateMatches_not_atomic:
  assumes "query_items (category nd) (if status nd = Some ''Lost'' then ''Found'' else ''Lost'') w
             = (Inr (pre @ doc # rest), w0)"
      and "scan nid nd pre [] w0 = (Inr found, w1)"
      and "scan_doc nid nd doc found w1 = (Inl e, w2)"
  shows "generateMatches nid nd w = ([], w2) \<and> (\<forall>r \<in> set found. persisted w w2 r)"
proof -
  have w0: "matches w0 = matches w" "notifications w0 = notifications w"
    using assms(1) by (auto simp: query_items_def split: if_splits)
  have "scan nid nd (pre @ doc # rest) [] w0 = (Inl e, w2)"
    using assms(2,3) by (simp add: scan_append)
  with assms(1) have ret: "generateMatches nid nd w = ([], w2)"
    by (simp add: generateMatches_def generateMatches_try_def)
  have "\<forall>r \<in> set found. persisted w w1 r"
    using scan_persisted [OF assms(2), of w] w0 by simp
  moreover note g = scan_doc_grows [OF assms(3)]
  ultimately have "\<forall>r \<in> set found. persisted w w2 r"
    using persisted_mono [of w w1 _ w2] by blast
  with ret show ?thesis by blast
qed

theorem generateMatches_not_atomic_witness:
  "fst (generateMatches 3 lost_bag
          (world_of [(1, found_bag), (2, other_bag)] [False, False, False, False, True])) = [] \<and>
   persisted (world_of [(1, found_bag), (2, other_bag)] [False, False, False, False, True])
     (snd (generateMatches 3 lost_bag
          (world_of [(1, found_bag), (2, other_bag)] [False, False, False, False, True])))
     first_result \<and>
   map fst (matches (snd (generateMatches 3 lost_bag
          (world_of [(1, found_bag), (2, other_bag)] [False, False, False, False, True]))))
     = [1, 2] \<and>
   map fst (notifications (snd (generateMatches 3 lost_bag
          (world_of [(1, found_bag), (2, other_bag)] [False, False, False, False, True]))))
     = [1]"
proof -
  let ?w = "world_of [(1, found_bag), (2, other_bag)] [False, False, False, False, True]"
  let ?wa = "snd (query_items (category lost_bag)
                (if status lost_bag = Some ''Lost'' then ''Found'' else ''Lost'') ?w)"
  let ?wb = "snd (scan 3 lost_bag [(1, found_bag)] [] ?wa)"
  let ?wc = "snd (scan_doc 3 lost_bag (2, other_bag) [first_result] ?wb)"
  have "fst (query_items (category lost_bag)
                (if status lost_bag = Some ''Lost'' then ''Found'' else ''Lost'') ?w)
          = Inr ([(1, found_bag)] @ (2, other_bag) # [])"
    by code_simp
  then have q: "query_items (category lost_bag)
                (if status lost_bag = Some ''Lost'' then ''Found'' else ''Lost'') ?w
          = (Inr ([(1, found_bag)] @ (2, other_bag) # []), ?wa)"
    by (simp add: prod_eq_iff)
  have "fst (scan 3 lost_bag [(1, found_bag)] [] ?wa) = Inr [first_result]"
    by code_simp
  then have p: "scan 3 lost_bag [(1, found_bag)] [] ?wa = (Inr [first_result], ?wb)"
    by (simp add: prod_eq_iff)
  have "fst (scan_doc 3 lost_bag (2, other_bag) [first_result] ?wb) = Inl StoreError"
    by code_simp
  then have d: "scan_doc 3 lost_bag (2, other_bag) [first_result] ?wb = (Inl StoreError, ?wc)"
    by (simp add: prod_eq_iff)
  have ms: "map fst (matches (snd (generateMatches 3 lost_bag ?w))) = [1, 2]"
    by code_simp
  have ns: "map fst (notifications (snd (generateMatches 3 lost_bag ?w))) = [1]"
    by code_simp
  from generateMatches_not_atomic [OF q p d] ms ns show ?thesis
    by simp
qed

text \<open>
  C10. With the new status Confirmed the match is written before the items. When the
  reads and the write of the match are served and the update of either item fails (the
  item's document is missing, or the store rejects the update), the answer is 500 while
  the match stays Confirmed; when the two items differ, at least one of them is left as
  it was.
\<close>

theorem confirm_failure_not_rolled_back:
  assumes "map_of (matches w) i = Some m"
      and "posted_by_of (map_of (items w) (lost_item_id m)) = Some uid
           \<or> posted_by_of (map_of (items w) (found_item_id m)) = Some uid"
      and "accepts 4 w"
      and "map_of (items w) (lost_item_id m) = None
           \<or> map_of (items w) (found_item_id m) = None
           \<or> \<not> accepts 6 w"
  shows "fst (updateMatchStatus i (Some ''Confirmed'') uid w)
           = Failure 500 ''Failed to update match status''
         \<and> map_option match_status
               (map_of (matches (snd (updateMatchStatus i (Some ''Confirmed'') uid w))) i)
             = Some ''Confirmed''
         \<and> (lost_item_id m \<noteq> found_item_id m \<longrightarrow>
               map_of (items (snd (updateMatchStatus i (Some ''Confirmed'') uid w)))
                   (lost_item_id m) = map_of (items w) (lost_item_id m)
               \<or> map_of (items (snd (updateMatchStatus i (Some ''Confirmed'') uid w)))
                   (found_item_id m) = map_of (items w) (found_item_id m))"
  using assms
  by (auto simp: updateMatchStatus_def store_defs update_item_status_def accepts_6 accepts_4
        AList.update_conv' posted_by_of_def
      split: prod.splits sum.splits if_splits option.splits)

theorem confirm_failure_not_rolled_back_witness:
  "map_of (matches (match_world [(1, lost_bag)] ''Pending'' [])) 1 = Some (match_of ''Pending'') \<and>
   accepts 4 (match_world [(1, lost_bag)] ''Pending'' []) \<and>
   map_of (items (match_world [(1, lost_bag)] ''Pending'' [])) 2 = None \<and>
   fst (updateMatchStatus 1 (Some ''Confirmed'') ''alice'' (match_world [(1, lost_bag)] ''Pending'' []))
     = Failure 500 ''Failed to update match status'' \<and>
   map_option match_status
     (map_of (matches (snd (updateMatchStatus 1 (Some ''Confirmed'') ''alice''
                               (match_world [(1, lost_bag)] ''Pending'' [])))) 1)
     = Some ''Confirmed'' \<and>
   lost_item_id (match_of ''Pending'') \<noteq> found_item_id (match_of ''Pending'') \<and>
   map_of (items (snd (updateMatchStatus 1 (Some ''Confirmed'') ''alice''
                         (match_world [(1, lost_bag)] ''Pending'' [])))) 2 = None \<and>
   map_option status
     (map_of (items (snd (updateMatchStatus 1 (Some ''Confirmed'') ''alice''
                            (match_world [(1, lost_bag)] ''Pending'' [])))) 1)
     = Some (Some ''Returned'')"
proof -
  let ?w = "match_world [(1, lost_bag)] ''Pending'' []"
  have m: "map_of (matches ?w) 1 = Some (match_of ''Pending'')"
    by (simp add: match_world_def)
  have own: "posted_by_of (map_of (items ?w) (lost_item_id (match_of ''Pending''))) = Some ''alice''
             \<or> posted_by_of (map_of (items ?w) (found_item_id (match_of ''Pending''))) = Some ''alice''"
    by (simp add: match_world_def match_of_def posted_by_of_def lost_bag_def item_of_def)
  have acc: "accepts 4 ?w"
    by (simp add: accepts_def match_world_def)
  have gone: "map_of (items ?w) 2 = None"
    by (simp add: match_world_def)
  then have fail: "map_of (items ?w) (lost_item_id (match_of ''Pending'')) = None
           \<or> map_of (items ?w) (found_item_id (match_of ''Pending'')) = None
           \<or> \<not> accepts 6 ?w"
    by (simp add: match_of_def)
  have ne: "lost_item_id (match_of ''Pending'') \<noteq> found_item_id (match_of ''Pending'')"
    by (simp add: match_of_def)
  have still: "map_of (items (snd (updateMatchStatus 1 (Some ''Confirmed'') ''alice'' ?w))) 2
                 = None"
    by code_simp
  have part: "map_option status
                (map_of (items (snd (updateMatchStatus 1 (Some ''Confirmed'') ''alice'' ?w))) 1)
                 = Some (Some ''Returned'')"
    by code_simp
  show ?thesis
    using confirm_failure_not_rolled_back [OF m own acc fail] m acc gone ne still part
    by simp
qed

end
